theory Spec2Isabelle
  imports
    Main
    "HOL-Library.Sublist"
    "HOL-Library.AList"
    "HOL-Library.Char_ord"
    "HOL-Library.List_Lexorder"
begin

section \<open>JavaScript strings, sets and maps\<close>

text \<open>
  The crawler works on JavaScript strings. They are modelled as \<^typ>\<open>string\<close>: a list of
  code units in the range U+0000 to U+00FF, one \<^typ>\<open>char\<close> each. The serialised URLs,
  host names and path names the scope logic compares are ASCII by the URL Standard.
  \<open>toLowerCase\<close> and \<open>trim\<close> are those of JavaScript on that range: the upper-case
  letters are \<open>A\<close> to \<open>Z\<close> and U+00C0 to U+00DE without U+00D7, each 32 below its
  lower-case letter; the white space and line terminator characters are tab, line feed,
  vertical tab, form feed, carriage return, space and the no-break space U+00A0.
\<close>

definition lowerChar :: "char \<Rightarrow> char" where
  "lowerChar c =
     (let n = (of_char c :: nat)
      in if (65 \<le> n \<and> n \<le> 90) \<or> (192 \<le> n \<and> n \<le> 214) \<or> (216 \<le> n \<and> n \<le> 222)
         then char_of (n + 32) else c)"

definition toLowerCase :: "string \<Rightarrow> string" where
  "toLowerCase s = map lowerChar s"

text \<open>\<open>s.startsWith(p)\<close>, \<open>s.endsWith(p)\<close> and \<open>s.includes(t)\<close>.\<close>

definition startsWith :: "string \<Rightarrow> string \<Rightarrow> bool" where
  "startsWith s p = prefix p s"

definition endsWith :: "string \<Rightarrow> string \<Rightarrow> bool" where
  "endsWith s p = suffix p s"

definition includesStr :: "string \<Rightarrow> string \<Rightarrow> bool" where
  "includesStr s t = sublist t s"

definition isWhiteSpace :: "char \<Rightarrow> bool" where
  "isWhiteSpace c =
     (c \<in> set [CHR 0x09, CHR 0x0A, CHR 0x0B, CHR 0x0C, CHR 0x0D, CHR '' '', CHR 0xA0])"

definition trim :: "string \<Rightarrow> string" where
  "trim s = rev (dropWhile isWhiteSpace (rev (dropWhile isWhiteSpace s)))"

text \<open>
  \<open>s.split(c)\<close> for a separator of one character. The result is never empty:
  \<open>"".split(",")\<close> is \<open>[""]\<close>.
\<close>

fun splitOn :: "char \<Rightarrow> string \<Rightarrow> string list" where
  "splitOn c [] = [[]]"
| "splitOn c (x # xs) =
     (if x = c then [] # splitOn c xs
      else (case splitOn c xs of [] \<Rightarrow> [[x]] | w # ws \<Rightarrow> (x # w) # ws))"

text \<open>\<open>s.split("#")[0]\<close>: the part of \<open>s\<close> before its first \<open>#\<close>.\<close>

definition stripFragment :: "string \<Rightarrow> string" where
  "stripFragment s = takeWhile (\<lambda>c. c \<noteq> CHR ''#'') s"

text \<open>\<open>a || b\<close> on strings: the empty string is falsy.\<close>

definition orElse :: "string \<Rightarrow> string \<Rightarrow> string" where
  "orElse a b = (if a = [] then b else a)"

text \<open>
  A JavaScript \<open>Set<string>\<close> and a \<open>string[]\<close> filled through
  \<open>if (!arr.includes(x)) arr.push(x)\<close> are lists in insertion order without duplicates;
  \<open>Set.add\<close> appends an element that is not yet a member. A \<open>Map\<close> is an association
  list in insertion order: \<open>get\<close> is \<^const>\<open>map_of\<close>, \<open>set\<close> is \<^const>\<open>AList.update\<close>
  (it replaces the value of a key that is present and appends a new key).
\<close>

definition Set_add :: "'a \<Rightarrow> 'a list \<Rightarrow> 'a list" where
  "Set_add x xs = (if x \<in> set xs then xs else xs @ [x])"

section \<open>URL objects\<close>

text \<open>
  \<open>new URL(s)\<close> is the platform's parser (the URL Standard), not code of this repository.
  A URL object is modelled as the URL record of the standard; the getters the crawler
  reads (\<open>protocol\<close>, \<open>hostname\<close>, \<open>pathname\<close>, \<open>href\<close>) and the setter it uses
  (\<open>hash = ""\<close>) are the standard's. The parser itself is a parameter \<open>parse\<close> of every
  function that calls \<open>new URL\<close>: \<open>None\<close> is the \<open>TypeError\<close> the constructor throws.
  The host and the port are kept in serialised form.
\<close>

datatype url_path = Opaque string | Segments "string list"

record url =
  scheme :: string
  username :: string
  password :: string
  host :: "string option"
  port :: "string option"
  path :: url_path
  query :: "string option"
  fragment :: "string option"

type_synonym url_parser = "string \<Rightarrow> url option"

definition protocol :: "url \<Rightarrow> string" where
  "protocol u = scheme u @ '':''"

definition hostname :: "url \<Rightarrow> string" where
  "hostname u = (case host u of None \<Rightarrow> [] | Some h \<Rightarrow> h)"

definition serializePath :: "url_path \<Rightarrow> string" where
  "serializePath p =
     (case p of Opaque s \<Rightarrow> s | Segments ss \<Rightarrow> concat (map (\<lambda>s. CHR ''/'' # s) ss))"

definition pathname :: "url \<Rightarrow> string" where
  "pathname u = serializePath (path u)"

text \<open>The part of the serialisation before the fragment, and \<open>href\<close>, the whole of it.\<close>

definition hrefNoFragment :: "url \<Rightarrow> string" where
  "hrefNoFragment u =
     scheme u @ '':'' @
     (case host u of
        Some h \<Rightarrow>
          ''//'' @
          (if username u \<noteq> [] \<or> password u \<noteq> []
           then username u @ (if password u \<noteq> [] then '':'' @ password u else []) @ ''@''
           else []) @
          h @ (case port u of None \<Rightarrow> [] | Some p \<Rightarrow> '':'' @ p)
      | None \<Rightarrow>
          (case path u of
             Segments (s # t # ss) \<Rightarrow> if s = [] then ''/.'' else []
           | _ \<Rightarrow> [])) @
     pathname u @
     (case query u of None \<Rightarrow> [] | Some q \<Rightarrow> CHR ''?'' # q)"

definition href :: "url \<Rightarrow> string" where
  "href u = hrefNoFragment u @ (case fragment u of None \<Rightarrow> [] | Some f \<Rightarrow> CHR ''#'' # f)"

text \<open>
  \<open>u.hash = ""\<close>: the fragment becomes null; the standard then strips the trailing spaces
  of an opaque path when the URL has no query either. http and https URLs never have an
  opaque path.
\<close>

definition clearHash :: "url \<Rightarrow> url" where
  "clearHash u =
     (case path u of
        Opaque s \<Rightarrow>
          if query u = None
          then u\<lparr>fragment := None,
                 path := Opaque (rev (dropWhile (\<lambda>c. c = CHR '' '') (rev s)))\<rparr>
          else u\<lparr>fragment := None\<rparr>
      | Segments ss \<Rightarrow> u\<lparr>fragment := None\<rparr>)"

section \<open>The scoping tables\<close>

text \<open>
  \<open>getAllowedHostnames\<close>: the host names of the seeds that parse; a seed that does not
  parse is skipped by the \<open>catch\<close>.
\<close>

definition getAllowedHostnames :: "url_parser \<Rightarrow> string list \<Rightarrow> string list" where
  "getAllowedHostnames parse urls =
     foldl (\<lambda>hosts u. case parse u of None \<Rightarrow> hosts | Some x \<Rightarrow> Set_add (hostname x) hosts)
       [] urls"

definition normalizePathPrefix :: "string \<Rightarrow> string" where
  "normalizePathPrefix pathname0 =
     (if pathname0 = [] then ''/''
      else
        let p = trim pathname0;
            p = (if \<not> startsWith p ''/'' then ''/'' @ p else p);
            p = (if \<not> endsWith p ''/'' then p @ ''/'' else p)
        in p)"

definition addSeedPrefix ::
  "url_parser \<Rightarrow> (string \<times> string list) list \<Rightarrow> string \<Rightarrow> (string \<times> string list) list" where
  "addSeedPrefix parse m u =
     (case parse u of
        None \<Rightarrow> m
      | Some x \<Rightarrow>
          let pfx = normalizePathPrefix (orElse (pathname x) ''/'');
              arr = (case map_of m (hostname x) of None \<Rightarrow> [] | Some a \<Rightarrow> a);
              arr = (if pfx \<in> set arr then arr else arr @ [pfx])
          in AList.update (hostname x) arr m)"

definition getHostnameToPathPrefixes ::
  "url_parser \<Rightarrow> string list \<Rightarrow> (string \<times> string list) list" where
  "getHostnameToPathPrefixes parse urls = foldl (addSeedPrefix parse) [] urls"

text \<open>
  \<open>getHostnameToScopeTokens\<close>: for every host, the lower-cased first non-empty segment of
  each of its prefixes.
\<close>

definition firstSegment :: "string \<Rightarrow> string" where
  "firstSegment p = (case filter (\<lambda>s. s \<noteq> []) (splitOn CHR ''/'' p) of [] \<Rightarrow> [] | s # _ \<Rightarrow> s)"

definition prefixTokens :: "string list \<Rightarrow> string list" where
  "prefixTokens pfxs =
     foldl (\<lambda>tokens p. let seg = firstSegment p
                        in if seg \<noteq> [] then Set_add (toLowerCase seg) tokens else tokens)
       [] pfxs"

definition getHostnameToScopeTokens ::
  "(string \<times> string list) list \<Rightarrow> (string \<times> string list) list" where
  "getHostnameToScopeTokens hostPrefixes =
     foldl (\<lambda>m (h, pfxs). AList.update h (prefixTokens pfxs) m) [] hostPrefixes"

section \<open>Link classifier and scope policy\<close>

definition nonHtmlExts :: "string list" where
  "nonHtmlExts =
     [''.pdf'', ''.doc'', ''.docx'', ''.xls'', ''.xlsx'', ''.csv'', ''.zip'', ''.rar'', ''.7z'',
      ''.jpg'', ''.jpeg'', ''.png'', ''.gif'', ''.webp'', ''.svg'', ''.mp4'', ''.mov'', ''.avi'',
      ''.mp3'', ''.wav'', ''.m4a'']"

definition isLikelyBinaryAsset :: "string \<Rightarrow> bool" where
  "isLikelyBinaryAsset pathname0 =
     (let lower = toLowerCase pathname0 in list_ex (\<lambda>ext. endsWith lower ext) nonHtmlExts)"

definition isInScope ::
  "url \<Rightarrow> bool \<Rightarrow> string list \<Rightarrow> (string \<times> string list) list \<Rightarrow> bool" where
  "isInScope urlObj sameDomainOnly allowedHostnames hostPrefixes =
     (if sameDomainOnly \<and> hostname urlObj \<notin> set allowedHostnames then False
      else
        (case map_of hostPrefixes (hostname urlObj) of
           Some pfxs \<Rightarrow>
             if length pfxs > 0
             then
               (let normalizedPath = normalizePathPrefix (orElse (pathname urlObj) ''/'')
                in list_ex (\<lambda>p. startsWith normalizedPath p) pfxs)
             else True
         | None \<Rightarrow> True))"

definition isSkippableScheme :: "string \<Rightarrow> bool" where
  "isSkippableScheme link =
     (let lower = toLowerCase link
      in startsWith lower ''javascript:'' \<or> startsWith lower ''mailto:'' \<or>
         startsWith lower ''tel:'' \<or> startsWith lower ''data:'')"

definition assetMatchesScope :: "url \<Rightarrow> (string \<times> string list) list \<Rightarrow> bool" where
  "assetMatchesScope urlObj hostScopeTokens =
     (case map_of hostScopeTokens (hostname urlObj) of
        None \<Rightarrow> True
      | Some tokens \<Rightarrow>
          if tokens = [] then True
          else
            (let lowerPath = toLowerCase (pathname urlObj)
             in list_ex (\<lambda>t. includesStr lowerPath t) tokens))"

section \<open>The page handler and the Discovery Set\<close>

text \<open>
  The decision the loop of \<open>requestHandler\<close> takes for a parsed link \<open>u\<close>: both of its
  branches end in \<open>discoveredLinks.add(u.href)\<close>, so the loop adds \<open>u.href\<close> exactly when
  this holds.
\<close>

definition handlerCollects ::
  "bool \<Rightarrow> string list \<Rightarrow> (string \<times> string list) list \<Rightarrow> (string \<times> string list) list \<Rightarrow>
   url \<Rightarrow> bool" where
  "handlerCollects sameDomainOnly allowedHostnames hostnameToPrefixes hostnameToScopeTokens u =
     (let isAsset = isLikelyBinaryAsset (pathname u);
          withinHost = (\<not> sameDomainOnly \<or> hostname u \<in> set allowedHostnames)
      in if isAsset then withinHost \<and> assetMatchesScope u hostnameToScopeTokens
         else isInScope u sameDomainOnly allowedHostnames hostnameToPrefixes)"

text \<open>
  One iteration of \<open>for (const href of pageLinks)\<close>, on the Discovery Set
  \<open>discoveredLinks\<close>. A link that does not parse (either \<open>new URL\<close> throws) is dropped by
  the \<open>catch\<close>.
\<close>

definition processHref ::
  "url_parser \<Rightarrow> bool \<Rightarrow> string list \<Rightarrow> (string \<times> string list) list \<Rightarrow>
   (string \<times> string list) list \<Rightarrow> string list \<Rightarrow> string \<Rightarrow> string list" where
  "processHref parse sameDomainOnly allowedHostnames hostnameToPrefixes hostnameToScopeTokens
     discoveredLinks link =
     (if isSkippableScheme link then discoveredLinks
      else
        (case parse link of
           None \<Rightarrow> discoveredLinks
         | Some u0 \<Rightarrow>
             let absolute = stripFragment (href u0)
             in (case parse absolute of
                   None \<Rightarrow> discoveredLinks
                 | Some u \<Rightarrow>
                     if handlerCollects sameDomainOnly allowedHostnames hostnameToPrefixes
                          hostnameToScopeTokens u
                     then Set_add (href u) discoveredLinks
                     else discoveredLinks)))"

text \<open>The link-collecting part of \<open>requestHandler\<close>, for the links \<open>pageLinks\<close> of one page.\<close>

definition requestHandler ::
  "url_parser \<Rightarrow> bool \<Rightarrow> string list \<Rightarrow> (string \<times> string list) list \<Rightarrow>
   (string \<times> string list) list \<Rightarrow> string list \<Rightarrow> string list \<Rightarrow> string list" where
  "requestHandler parse sameDomainOnly allowedHostnames hostnameToPrefixes hostnameToScopeTokens
     discoveredLinks pageLinks =
     foldl (processHref parse sameDomainOnly allowedHostnames hostnameToPrefixes
              hostnameToScopeTokens) discoveredLinks pageLinks"

section \<open>The Frontier Filter\<close>

text \<open>
  \<open>transformRequestFunction\<close>, on the URL of the request: \<open>None\<close> is \<open>return null\<close> (the
  candidate is dropped), \<open>Some url\<close> is the request returned with its \<open>url\<close> rewritten.
\<close>

definition transformRequestFunction ::
  "url_parser \<Rightarrow> bool \<Rightarrow> string list \<Rightarrow> (string \<times> string list) list \<Rightarrow> string \<Rightarrow>
   string option" where
  "transformRequestFunction parse sameDomainOnly allowedHostnames hostnameToPrefixes reqUrl =
     (case parse reqUrl of
        None \<Rightarrow> None
      | Some u0 \<Rightarrow>
          let u = clearHash u0;
              reqUrl' = href u
          in if protocol u \<noteq> ''http:'' \<and> protocol u \<noteq> ''https:'' then None
             else if \<not> isInScope u sameDomainOnly allowedHostnames hostnameToPrefixes then None
             else if isLikelyBinaryAsset (pathname u) then None
             else Some reqUrl')"

section \<open>The plain links crawler\<close>

text \<open>
  \<open>playwrightLinksCrawler.ts\<close> is the same crawler without path scoping and without the
  link classifier: its handler checks the host only and records the fragment-free string,
  its filter checks the protocol and the host.
\<close>

definition processHref_links ::
  "url_parser \<Rightarrow> bool \<Rightarrow> string list \<Rightarrow> string list \<Rightarrow> string \<Rightarrow> string list" where
  "processHref_links parse sameDomainOnly allowedHostnames discoveredLinks link =
     (if isSkippableScheme link then discoveredLinks
      else
        (case parse link of
           None \<Rightarrow> discoveredLinks
         | Some u0 \<Rightarrow>
             let absolute = stripFragment (href u0)
             in if sameDomainOnly
                then (case parse absolute of
                        None \<Rightarrow> discoveredLinks
                      | Some u \<Rightarrow>
                          if hostname u \<notin> set allowedHostnames then discoveredLinks
                          else Set_add absolute discoveredLinks)
                else Set_add absolute discoveredLinks))"

definition requestHandler_links ::
  "url_parser \<Rightarrow> bool \<Rightarrow> string list \<Rightarrow> string list \<Rightarrow> string list \<Rightarrow> string list" where
  "requestHandler_links parse sameDomainOnly allowedHostnames discoveredLinks pageLinks =
     foldl (processHref_links parse sameDomainOnly allowedHostnames) discoveredLinks pageLinks"

definition transformRequestFunction_links ::
  "url_parser \<Rightarrow> bool \<Rightarrow> string list \<Rightarrow> string \<Rightarrow> string option" where
  "transformRequestFunction_links parse sameDomainOnly allowedHostnames reqUrl =
     (case parse reqUrl of
        None \<Rightarrow> None
      | Some u0 \<Rightarrow>
          let u = clearHash u0;
              reqUrl' = href u
          in if protocol u \<noteq> ''http:'' \<and> protocol u \<noteq> ''https:'' then None
             else if sameDomainOnly \<and> hostname u \<notin> set allowedHostnames then None
             else Some reqUrl')"

section \<open>The run\<close>

text \<open>
  A run ends in the sorted list of the discovered links, or in a rejection of \<open>main\<close>,
  which the \<open>catch\<close> at the end of the file turns into \<open>process.exit(1)\<close>:
  \<open>NoStartUrl\<close> is the error \<open>parseStartUrls\<close> throws (the plain crawler calls
  \<open>process.exit(1)\<close> there), \<open>CrawlerFailed\<close> a rejection that comes from the crawling
  engine.
\<close>

datatype error = NoStartUrl | CrawlerFailed

text \<open>
  \<open>parseStartUrls\<close>, from \<open>process.argv\<close> and the environment variable \<open>START_URL\<close>
  (\<open>None\<close> when it is not set).
\<close>

definition parseStartUrls :: "string list \<Rightarrow> string option \<Rightarrow> error + string list" where
  "parseStartUrls argv envStartUrl =
     (let cliArgs = filter (\<lambda>s. s \<noteq> []) (drop 2 argv);
          envArg = (case envStartUrl of
                      None \<Rightarrow> []
                    | Some v \<Rightarrow> filter (\<lambda>s. s \<noteq> []) (map trim (splitOn CHR '','' v)));
          startUrls = (if length cliArgs > 0 then cliArgs else envArg)
      in if length startUrls = 0 then Inl NoStartUrl else Inr startUrls)"

text \<open>\<open>[...discoveredLinks].sort()\<close>: the default sort compares strings by code units.\<close>

definition snapshot :: "string list \<Rightarrow> string list" where
  "snapshot discoveredLinks = sort discoveredLinks"

text \<open>
  The crawling engine (the \<open>crawlee\<close> module) is not code of this repository; it is a
  parameter of \<open>main\<close>. \<open>loads\<close> says whether \<open>await import("crawlee")\<close> resolves.
  \<open>run\<close> is constructing the crawler and \<open>await crawler.run(startUrls)\<close>: it is given
  what the program hands to the engine, namely the flag \<open>sameDomainOnly\<close> (the enqueue
  strategy), the Frontier Filter and the start URLs as \<open>parseStartUrls\<close> returned them,
  malformed ones included. Its result is \<open>None\<close> when the engine rejects, and otherwise
  the \<open>pageLinks\<close> of the pages it handed to \<open>requestHandler\<close>, in the order of the
  calls. The remaining options are configuration of the engine.
\<close>

record engine =
  loads :: bool
  run :: "bool \<Rightarrow> (string \<Rightarrow> string option) \<Rightarrow> string list \<Rightarrow> string list list option"

text \<open>
  \<open>main\<close> of the scoped crawler. \<open>envSameDomainOnly\<close> is the environment variable
  \<open>SAME_DOMAIN_ONLY\<close>.
\<close>

definition main ::
  "url_parser \<Rightarrow> engine \<Rightarrow> string list \<Rightarrow> string option \<Rightarrow> string option \<Rightarrow>
   error + string list" where
  "main parse crawlee argv envStartUrl envSameDomainOnly =
     (if \<not> loads crawlee then Inl CrawlerFailed
      else
        (case parseStartUrls argv envStartUrl of
           Inl e \<Rightarrow> Inl e
         | Inr startUrls \<Rightarrow>
             let sameDomainOnly =
                   (toLowerCase (case envSameDomainOnly of None \<Rightarrow> ''true'' | Some v \<Rightarrow> v) =
                    ''true'');
                 allowedHostnames = getAllowedHostnames parse startUrls;
                 hostnameToPrefixes = getHostnameToPathPrefixes parse startUrls;
                 hostnameToScopeTokens = getHostnameToScopeTokens hostnameToPrefixes
             in (case run crawlee sameDomainOnly
                        (transformRequestFunction parse sameDomainOnly allowedHostnames
                           hostnameToPrefixes)
                        startUrls of
                   None \<Rightarrow> Inl CrawlerFailed
                 | Some visits \<Rightarrow>
                     Inr (snapshot
                            (foldl (requestHandler parse sameDomainOnly allowedHostnames
                                      hostnameToPrefixes hostnameToScopeTokens) [] visits)))))"

section \<open>The URLs of the examples\<close>

text \<open>
  The values of \<open>new URL\<close> on the URLs the examples use, as a table; \<open>exampleParse\<close>
  instantiates the parser at concrete inputs. Each entry is the URL record the URL Standard
  gives for the string.
\<close>

definition mkURL :: "string \<Rightarrow> string \<Rightarrow> string list \<Rightarrow> string option \<Rightarrow> url" where
  "mkURL sch h segs frag =
     \<lparr>scheme = sch, username = [], password = [], host = Some h, port = None,
      path = Segments segs, query = None, fragment = frag\<rparr>"

definition javascriptVoid :: url where
  "javascriptVoid =
     \<lparr>scheme = ''javascript'', username = [], password = [], host = None, port = None,
      path = Opaque ''void(0)'', query = None, fragment = None\<rparr>"

definition exampleURLs :: "(string \<times> url) list" where
  "exampleURLs =
     [(''https://example.com/'', mkURL ''https'' ''example.com'' [[]] None),
      (''https://example.com/dubai/'', mkURL ''https'' ''example.com'' [''dubai'', []] None),
      (''https://example.com/Dubai/'', mkURL ''https'' ''example.com'' [''Dubai'', []] None),
      (''https://example.com/dubai/villas'',
         mkURL ''https'' ''example.com'' [''dubai'', ''villas''] None),
      (''https://example.com/dubai/villas#map'',
         mkURL ''https'' ''example.com'' [''dubai'', ''villas''] (Some ''map'')),
      (''https://example.com/sharjah/villas'',
         mkURL ''https'' ''example.com'' [''sharjah'', ''villas''] None),
      (''https://other.com/dubai/'', mkURL ''https'' ''other.com'' [''dubai'', []] None),
      (''https://example.com/downloads/dubai-brochure.pdf'',
         mkURL ''https'' ''example.com'' [''downloads'', ''dubai-brochure.pdf''] None),
      (''https://example.com/downloads/sharjah-brochure.pdf'',
         mkURL ''https'' ''example.com'' [''downloads'', ''sharjah-brochure.pdf''] None),
      (''https://cdn.example.net/files/report.pdf'',
         mkURL ''https'' ''cdn.example.net'' [''files'', ''report.pdf''] None),
      (''ftp://example.com/files/'', mkURL ''ftp'' ''example.com'' [''files'', []] None),
      (''javascript:void(0)'', javascriptVoid)]"

definition exampleParse :: url_parser where
  "exampleParse s = map_of exampleURLs s"

text \<open>
  An engine for the examples. The module loads; a run whose start list holds a string
  that is not a URL is rejected, as the engine does when it validates its start requests;
  any other run hands the pages \<open>visits\<close> to the handler.
\<close>

definition exampleEngine :: "string list list \<Rightarrow> engine" where
  "exampleEngine visits =
     \<lparr>loads = True,
      run = (\<lambda>sameDomainOnly transform startUrls.
               if list_all (\<lambda>u. case exampleParse u of None \<Rightarrow> False | Some x \<Rightarrow> True) startUrls
               then Some visits else None)\<rparr>"

text \<open>The prefix a parsed seed contributes to the Path Prefix Table.\<close>

definition seedPrefix :: "url \<Rightarrow> string" where
  "seedPrefix x = normalizePathPrefix (orElse (pathname x) ''/'')"

section \<open>Facts about sets, prefixes and the tables\<close>

lemma set_Set_add: "set (Set_add x xs) = insert x (set xs)"
  by (auto simp: Set_add_def)

lemma distinct_Set_add: "distinct xs \<Longrightarrow> distinct (Set_add x xs)"
  by (simp add: Set_add_def)

lemma Set_add_twice: "Set_add x (Set_add x xs) = Set_add x xs"
  by (simp add: Set_add_def)

lemma normalizePathPrefix_startsWith: "startsWith (normalizePathPrefix s) ''/''"
  by (simp add: normalizePathPrefix_def startsWith_def endsWith_def Let_def)

lemma normalizePathPrefix_endsWith: "endsWith (normalizePathPrefix s) ''/''"
  by (simp add: normalizePathPrefix_def startsWith_def endsWith_def Let_def)

lemma getHostnameToPathPrefixes_snoc:
  "getHostnameToPathPrefixes parse (urls @ [u]) =
   addSeedPrefix parse (getHostnameToPathPrefixes parse urls) u"
  by (simp add: getHostnameToPathPrefixes_def)

lemma map_of_addSeedPrefix:
  "map_of (addSeedPrefix parse m u) h =
     (case parse u of
        None \<Rightarrow> map_of m h
      | Some x \<Rightarrow>
          if h = hostname x
          then Some (let arr = (case map_of m h of None \<Rightarrow> [] | Some a \<Rightarrow> a)
                     in if seedPrefix x \<in> set arr then arr else arr @ [seedPrefix x])
          else map_of m h)"
  by (auto simp: addSeedPrefix_def seedPrefix_def update_conv' Let_def split: option.splits)

text \<open>
  The entry of a host in the Path Prefix Table: absent when no parsed seed has the host,
  and otherwise the non-empty, duplicate-free list of the prefixes of the seeds on that host.
\<close>

lemma prefix_table_entries:
  "case map_of (getHostnameToPathPrefixes parse urls) h of
     None \<Rightarrow> (\<forall>s \<in> set urls. \<forall>x. parse s = Some x \<longrightarrow> hostname x \<noteq> h)
   | Some ps \<Rightarrow>
       ps \<noteq> [] \<and> distinct ps \<and>
       set ps = seedPrefix ` {x. \<exists>s \<in> set urls. parse s = Some x \<and> hostname x = h}"
proof (induction urls rule: rev_induct)
  case Nil
  show ?case by (simp add: getHostnameToPathPrefixes_def)
next
  case (snoc u urls)
  show ?case
  proof (cases "parse u")
    case None
    with snoc show ?thesis
      by (auto simp: getHostnameToPathPrefixes_snoc map_of_addSeedPrefix split: option.splits)
  next
    case (Some x)
    show ?thesis
    proof (cases "h = hostname x")
      case False
      with Some snoc show ?thesis
        by (auto simp: getHostnameToPathPrefixes_snoc map_of_addSeedPrefix split: option.splits)
    next
      case True
      with Some snoc show ?thesis
        by (auto simp: getHostnameToPathPrefixes_snoc map_of_addSeedPrefix Let_def
                 split: option.splits)
    qed
  qed
qed

lemma distinct_keys_addSeedPrefix:
  "distinct (map fst m) \<Longrightarrow> distinct (map fst (addSeedPrefix parse m u))"
  by (simp add: addSeedPrefix_def Let_def distinct_update split: option.splits)

lemma distinct_keys_prefix_table: "distinct (map fst (getHostnameToPathPrefixes parse urls))"
  by (induction urls rule: rev_induct)
     (simp_all add: getHostnameToPathPrefixes_snoc distinct_keys_addSeedPrefix,
      simp add: getHostnameToPathPrefixes_def)

text \<open>The Scope Token Table has the keys of the Path Prefix Table it is built from.\<close>

lemma token_table_entries:
  "distinct (map fst hp) \<Longrightarrow>
   map_of (getHostnameToScopeTokens hp) h = map_option prefixTokens (map_of hp h)"
proof (induction hp rule: rev_induct)
  case Nil
  show ?case by (simp add: getHostnameToScopeTokens_def)
next
  case (snoc e hp)
  obtain k ps where e: "e = (k, ps)" by (cases e)
  from snoc.prems e have k: "map_of hp k = None" and d: "distinct (map fst hp)"
    by (auto simp: map_of_eq_None_iff)
  have step: "getHostnameToScopeTokens (hp @ [(k, ps)]) =
      AList.update k (prefixTokens ps) (getHostnameToScopeTokens hp)"
    by (simp add: getHostnameToScopeTokens_def)
  show ?case using snoc.IH[OF d] k
    by (auto simp: step update_conv' e map_add_def split: option.splits)
qed

section \<open>Facts about the hash setter\<close>

lemma scheme_clearHash: "scheme (clearHash u) = scheme u"
  by (simp add: clearHash_def split: url_path.splits)

lemma protocol_clearHash: "protocol (clearHash u) = protocol u"
  by (simp add: protocol_def scheme_clearHash)

lemma hostname_clearHash: "hostname (clearHash u) = hostname u"
  by (simp add: hostname_def clearHash_def split: url_path.splits)

lemma fragment_clearHash: "fragment (clearHash u) = None"
  by (simp add: clearHash_def split: url_path.splits)

lemma clearHash_Segments: "path u = Segments ss \<Longrightarrow> clearHash u = u\<lparr>fragment := None\<rparr>"
  by (simp add: clearHash_def)

lemma hrefNoFragment_fragment_update: "hrefNoFragment (u\<lparr>fragment := f\<rparr>) = hrefNoFragment u"
  by (cases "host u") (simp_all add: hrefNoFragment_def pathname_def)

text \<open>\<open>isInScope\<close> reads the host name and the path name of the URL only.\<close>

lemma isInScope_cong:
  "hostname u = hostname v \<Longrightarrow> pathname u = pathname v \<Longrightarrow>
   isInScope u sameDomainOnly al hp = isInScope v sameDomainOnly al hp"
  unfolding isInScope_def by (simp only:)

section \<open>Claims about the Scope Policy\<close>

text \<open>
  Claim C1 (Scope Policy, page variant). With \<open>sameDomainOnly\<close> set, \<open>isInScope\<close> admits a
  URL only if its host name is in the Allowed Hostname Set. For an admissible host name
  whose entry in the Path Prefix Table is not empty, the URL is admitted exactly when its
  normalised path name (\<open>normalizePathPrefix(pathname || "/")\<close>) starts with one of the
  recorded prefixes; when the entry is empty or absent, every path is admitted. With the
  seed \<open>https://example.com/dubai/\<close> and \<open>sameDomainOnly = true\<close>,
  \<open>https://example.com/dubai/villas\<close> is in scope, and
  \<open>https://example.com/sharjah/villas\<close> and \<open>https://other.com/dubai/\<close> are not.
\<close>

theorem isInScope_policy:
  "(sameDomainOnly \<and> isInScope u sameDomainOnly al hp \<longrightarrow> hostname u \<in> set al) \<and>
   ((sameDomainOnly \<longrightarrow> hostname u \<in> set al) \<and> map_of hp (hostname u) = Some ps \<and> ps \<noteq> [] \<longrightarrow>
      isInScope u sameDomainOnly al hp =
        (\<exists>p \<in> set ps. startsWith (normalizePathPrefix (orElse (pathname u) ''/'')) p)) \<and>
   ((sameDomainOnly \<longrightarrow> hostname u \<in> set al) \<and>
    (map_of hp (hostname u) = None \<or> map_of hp (hostname u) = Some []) \<longrightarrow>
      isInScope u sameDomainOnly al hp) \<and>
   (let seeds = [''https://example.com/dubai/''];
        al0 = getAllowedHostnames exampleParse seeds;
        hp0 = getHostnameToPathPrefixes exampleParse seeds
    in isInScope (mkURL ''https'' ''example.com'' [''dubai'', ''villas''] None) True al0 hp0 \<and>
       \<not> isInScope (mkURL ''https'' ''example.com'' [''sharjah'', ''villas''] None) True al0 hp0 \<and>
       \<not> isInScope (mkURL ''https'' ''other.com'' [''dubai'', []] None) True al0 hp0)"
proof (intro conjI)
  show "sameDomainOnly \<and> isInScope u sameDomainOnly al hp \<longrightarrow> hostname u \<in> set al"
    by (auto simp: isInScope_def)
  show "(sameDomainOnly \<longrightarrow> hostname u \<in> set al) \<and> map_of hp (hostname u) = Some ps \<and> ps \<noteq> [] \<longrightarrow>
      isInScope u sameDomainOnly al hp =
        (\<exists>p \<in> set ps. startsWith (normalizePathPrefix (orElse (pathname u) ''/'')) p)"
    by (auto simp: isInScope_def Let_def list_ex_iff)
  show "(sameDomainOnly \<longrightarrow> hostname u \<in> set al) \<and>
    (map_of hp (hostname u) = None \<or> map_of hp (hostname u) = Some []) \<longrightarrow>
      isInScope u sameDomainOnly al hp"
    by (auto simp: isInScope_def)
  show "let seeds = [''https://example.com/dubai/''];
        al0 = getAllowedHostnames exampleParse seeds;
        hp0 = getHostnameToPathPrefixes exampleParse seeds
    in isInScope (mkURL ''https'' ''example.com'' [''dubai'', ''villas''] None) True al0 hp0 \<and>
       \<not> isInScope (mkURL ''https'' ''example.com'' [''sharjah'', ''villas''] None) True al0 hp0 \<and>
       \<not> isInScope (mkURL ''https'' ''other.com'' [''dubai'', []] None) True al0 hp0"
    by code_simp
qed

text \<open>
  The theorem at a host with two prefixes: \<open>/dubai/villas\<close> is admitted through the
  first of them.
\<close>

theorem isInScope_policy_witness:
  "hostname (mkURL ''https'' ''example.com'' [''dubai'', ''villas''] None) \<in> set [''example.com''] \<and>
   map_of [(''example.com'', [''/dubai/'', ''/abu-dhabi/''])]
     (hostname (mkURL ''https'' ''example.com'' [''dubai'', ''villas''] None)) =
     Some [''/dubai/'', ''/abu-dhabi/''] \<and>
   isInScope (mkURL ''https'' ''example.com'' [''dubai'', ''villas''] None) True [''example.com'']
     [(''example.com'', [''/dubai/'', ''/abu-dhabi/''])]"
proof -
  let ?u = "mkURL ''https'' ''example.com'' [''dubai'', ''villas''] None"
  let ?hp = "[(''example.com'', [''/dubai/'', ''/abu-dhabi/''])]"
  have h1: "hostname ?u \<in> set [''example.com'']" by code_simp
  have h2: "map_of ?hp (hostname ?u) = Some [''/dubai/'', ''/abu-dhabi/'']" by code_simp
  have h3: "\<exists>p \<in> set [''/dubai/'', ''/abu-dhabi/''].
              startsWith (normalizePathPrefix (orElse (pathname ?u) ''/'')) p"
    by code_simp
  from isInScope_policy [of True ?u "[''example.com'']" ?hp "[''/dubai/'', ''/abu-dhabi/'']"]
    h1 h2 h3
  show ?thesis by blast
qed

text \<open>
  Claim C2 (relaxed asset scope). For a URL whose path the Link Classifier marks as an
  asset, the handler collects it exactly when its host name is allowed (\<open>sameDomainOnly\<close>
  is off, or the host name is in the Allowed Hostname Set) and either the lower-cased
  path name contains a scope token of the host as a substring or the host has no scope
  tokens. A link that parses to \<open>u\<close> is then in the Discovery Set after the iteration
  exactly when it was collected or already there. With the seed
  \<open>https://example.com/dubai/\<close>, \<open>https://example.com/downloads/dubai-brochure.pdf\<close> is
  recorded and \<open>https://example.com/downloads/sharjah-brochure.pdf\<close> is not.
\<close>

theorem asset_scope:
  "(isLikelyBinaryAsset (pathname u) \<longrightarrow>
      handlerCollects sameDomainOnly al hp tk u =
        ((\<not> sameDomainOnly \<or> hostname u \<in> set al) \<and>
         ((\<exists>ts. map_of tk (hostname u) = Some ts \<and>
                (\<exists>t \<in> set ts. includesStr (toLowerCase (pathname u)) t)) \<or>
          map_of tk (hostname u) = None \<or> map_of tk (hostname u) = Some []))) \<and>
   (\<not> isSkippableScheme link \<and> parse link = Some u0 \<and>
    parse (stripFragment (href u0)) = Some u \<longrightarrow>
      set (processHref parse sameDomainOnly al hp tk discovered link) =
        (if handlerCollects sameDomainOnly al hp tk u then insert (href u) (set discovered)
         else set discovered)) \<and>
   (let seeds = [''https://example.com/dubai/''];
        al0 = getAllowedHostnames exampleParse seeds;
        hp0 = getHostnameToPathPrefixes exampleParse seeds;
        tk0 = getHostnameToScopeTokens hp0
    in processHref exampleParse True al0 hp0 tk0 []
         ''https://example.com/downloads/dubai-brochure.pdf'' =
         [''https://example.com/downloads/dubai-brochure.pdf''] \<and>
       processHref exampleParse True al0 hp0 tk0 []
         ''https://example.com/downloads/sharjah-brochure.pdf'' = [])"
proof (intro conjI)
  show "isLikelyBinaryAsset (pathname u) \<longrightarrow>
      handlerCollects sameDomainOnly al hp tk u =
        ((\<not> sameDomainOnly \<or> hostname u \<in> set al) \<and>
         ((\<exists>ts. map_of tk (hostname u) = Some ts \<and>
                (\<exists>t \<in> set ts. includesStr (toLowerCase (pathname u)) t)) \<or>
          map_of tk (hostname u) = None \<or> map_of tk (hostname u) = Some []))"
    by (auto simp: handlerCollects_def assetMatchesScope_def Let_def list_ex_iff
             split: option.splits)
  show "\<not> isSkippableScheme link \<and> parse link = Some u0 \<and>
    parse (stripFragment (href u0)) = Some u \<longrightarrow>
      set (processHref parse sameDomainOnly al hp tk discovered link) =
        (if handlerCollects sameDomainOnly al hp tk u then insert (href u) (set discovered)
         else set discovered)"
    by (simp add: processHref_def Let_def set_Set_add)
  show "let seeds = [''https://example.com/dubai/''];
        al0 = getAllowedHostnames exampleParse seeds;
        hp0 = getHostnameToPathPrefixes exampleParse seeds;
        tk0 = getHostnameToScopeTokens hp0
    in processHref exampleParse True al0 hp0 tk0 []
         ''https://example.com/downloads/dubai-brochure.pdf'' =
         [''https://example.com/downloads/dubai-brochure.pdf''] \<and>
       processHref exampleParse True al0 hp0 tk0 []
         ''https://example.com/downloads/sharjah-brochure.pdf'' = []"
    by code_simp
qed

text \<open>The theorem at the brochure of the example, with the tables of the seed written out.\<close>

theorem asset_scope_witness:
  "isLikelyBinaryAsset
     (pathname (mkURL ''https'' ''example.com'' [''downloads'', ''dubai-brochure.pdf''] None)) \<and>
   \<not> isSkippableScheme ''https://example.com/downloads/dubai-brochure.pdf'' \<and>
   exampleParse ''https://example.com/downloads/dubai-brochure.pdf'' =
     Some (mkURL ''https'' ''example.com'' [''downloads'', ''dubai-brochure.pdf''] None) \<and>
   handlerCollects True [''example.com''] [(''example.com'', [''/dubai/''])]
     [(''example.com'', [''dubai''])]
     (mkURL ''https'' ''example.com'' [''downloads'', ''dubai-brochure.pdf''] None) \<and>
   set (processHref exampleParse True [''example.com''] [(''example.com'', [''/dubai/''])]
          [(''example.com'', [''dubai''])] [] ''https://example.com/downloads/dubai-brochure.pdf'') =
     insert (href (mkURL ''https'' ''example.com'' [''downloads'', ''dubai-brochure.pdf''] None))
       (set [])"
proof -
  let ?b = "mkURL ''https'' ''example.com'' [''downloads'', ''dubai-brochure.pdf''] None"
  let ?link = "''https://example.com/downloads/dubai-brochure.pdf''"
  let ?al = "[''example.com'']"
  let ?hp = "[(''example.com'', [''/dubai/''])]"
  let ?tk = "[(''example.com'', [''dubai''])]"
  have h1: "isLikelyBinaryAsset (pathname ?b)" by code_simp
  have h2: "\<not> isSkippableScheme ?link" by code_simp
  have h3: "exampleParse ?link = Some ?b" by code_simp
  have h4: "exampleParse (stripFragment (href ?b)) = Some ?b" by code_simp
  have h5: "hostname ?b \<in> set ?al" by code_simp
  have h6: "map_of ?tk (hostname ?b) = Some [''dubai'']" by code_simp
  have h7: "\<exists>t \<in> set [''dubai'']. includesStr (toLowerCase (pathname ?b)) t" by code_simp
  note inst = asset_scope [of ?b True ?al ?hp ?tk ?link exampleParse ?b "[]"]
  from inst h1 h5 h6 h7 have c: "handlerCollects True ?al ?hp ?tk ?b" by blast
  from inst h2 h3 h4 have
    "set (processHref exampleParse True ?al ?hp ?tk [] ?link) =
       (if handlerCollects True ?al ?hp ?tk ?b then insert (href ?b) (set []) else set [])"
    by blast
  with c have "set (processHref exampleParse True ?al ?hp ?tk [] ?link) = insert (href ?b) (set [])"
    by (simp only: if_True)
  with h1 h2 h3 c show ?thesis by blast
qed

section \<open>Claims about the Frontier Filter\<close>

text \<open>
  Claim C3 (Frontier Filter). \<open>transformRequestFunction\<close> drops a candidate that does
  not parse. For a candidate that parses to \<open>u0\<close> it strips the fragment
  (\<open>clearHash u0\<close>) and accepts exactly when the protocol is \<open>http:\<close> or
  \<open>https:\<close>, \<open>isInScope\<close> admits the URL and the Link Classifier does not mark its
  path as an asset; the accepted candidate is returned as the serialisation of the URL
  without fragment, and an asset is never accepted. Stripping the fragment leaves the
  protocol and the host name as they are, and for a URL with a path of segments (every
  http or https URL) the path name and the verdict of \<open>isInScope\<close> too: the
  serialisation of the candidate is the returned one followed by \<open>#\<close> and the
  fragment, when it has one.
\<close>

theorem frontier_filter:
  "transformRequestFunction parse sameDomainOnly al hp reqUrl =
     (case parse reqUrl of
        None \<Rightarrow> None
      | Some u0 \<Rightarrow>
          if (protocol (clearHash u0) = ''http:'' \<or> protocol (clearHash u0) = ''https:'') \<and>
             isInScope (clearHash u0) sameDomainOnly al hp \<and>
             \<not> isLikelyBinaryAsset (pathname (clearHash u0))
          then Some (href (clearHash u0)) else None) \<and>
   (parse reqUrl = Some u0 \<and> isLikelyBinaryAsset (pathname (clearHash u0)) \<longrightarrow>
      transformRequestFunction parse sameDomainOnly al hp reqUrl = None) \<and>
   fragment (clearHash u0) = None \<and>
   protocol (clearHash u0) = protocol u0 \<and>
   hostname (clearHash u0) = hostname u0 \<and>
   (path u0 = Segments ss \<longrightarrow>
      pathname (clearHash u0) = pathname u0 \<and>
      isInScope (clearHash u0) sameDomainOnly al hp = isInScope u0 sameDomainOnly al hp \<and>
      href u0 = href (clearHash u0) @ (case fragment u0 of None \<Rightarrow> [] | Some f \<Rightarrow> CHR ''#'' # f))"
proof (intro conjI)
  show "transformRequestFunction parse sameDomainOnly al hp reqUrl =
     (case parse reqUrl of
        None \<Rightarrow> None
      | Some u0 \<Rightarrow>
          if (protocol (clearHash u0) = ''http:'' \<or> protocol (clearHash u0) = ''https:'') \<and>
             isInScope (clearHash u0) sameDomainOnly al hp \<and>
             \<not> isLikelyBinaryAsset (pathname (clearHash u0))
          then Some (href (clearHash u0)) else None)"
    by (simp add: transformRequestFunction_def Let_def split: option.splits)
  show "parse reqUrl = Some u0 \<and> isLikelyBinaryAsset (pathname (clearHash u0)) \<longrightarrow>
      transformRequestFunction parse sameDomainOnly al hp reqUrl = None"
    by (simp add: transformRequestFunction_def Let_def)
  show "fragment (clearHash u0) = None" by (rule fragment_clearHash)
  show "protocol (clearHash u0) = protocol u0" by (rule protocol_clearHash)
  show "hostname (clearHash u0) = hostname u0" by (rule hostname_clearHash)
  show "path u0 = Segments ss \<longrightarrow>
      pathname (clearHash u0) = pathname u0 \<and>
      isInScope (clearHash u0) sameDomainOnly al hp = isInScope u0 sameDomainOnly al hp \<and>
      href u0 = href (clearHash u0) @ (case fragment u0 of None \<Rightarrow> [] | Some f \<Rightarrow> CHR ''#'' # f)"
  proof
    assume s: "path u0 = Segments ss"
    then have p: "pathname (clearHash u0) = pathname u0"
      by (simp add: clearHash_Segments pathname_def)
    from s have h: "href u0 =
        href (clearHash u0) @ (case fragment u0 of None \<Rightarrow> [] | Some f \<Rightarrow> CHR ''#'' # f)"
      by (simp add: clearHash_Segments href_def hrefNoFragment_fragment_update)
    from p hostname_clearHash [of u0] have
      "isInScope (clearHash u0) sameDomainOnly al hp = isInScope u0 sameDomainOnly al hp"
      by (intro isInScope_cong)
    with p h show "pathname (clearHash u0) = pathname u0 \<and>
      isInScope (clearHash u0) sameDomainOnly al hp = isInScope u0 sameDomainOnly al hp \<and>
      href u0 = href (clearHash u0) @ (case fragment u0 of None \<Rightarrow> [] | Some f \<Rightarrow> CHR ''#'' # f)"
      by blast
  qed
qed

text \<open>
  The theorem at the brochure of the example, an asset, and at
  \<open>https://example.com/dubai/villas#map\<close>.
\<close>

theorem frontier_filter_witness:
  "exampleParse ''https://example.com/downloads/dubai-brochure.pdf'' =
     Some (mkURL ''https'' ''example.com'' [''downloads'', ''dubai-brochure.pdf''] None) \<and>
   transformRequestFunction exampleParse True [''example.com''] [(''example.com'', [''/''])]
     ''https://example.com/downloads/dubai-brochure.pdf'' = None \<and>
   path (mkURL ''https'' ''example.com'' [''dubai'', ''villas''] (Some ''map'')) =
     Segments [''dubai'', ''villas''] \<and>
   href (mkURL ''https'' ''example.com'' [''dubai'', ''villas''] (Some ''map'')) =
     href (clearHash (mkURL ''https'' ''example.com'' [''dubai'', ''villas''] (Some ''map''))) @ ''#map'' \<and>
   transformRequestFunction exampleParse True [''example.com''] [(''example.com'', [''/dubai/''])]
     ''https://example.com/dubai/villas#map'' = Some ''https://example.com/dubai/villas''"
proof -
  let ?b = "mkURL ''https'' ''example.com'' [''downloads'', ''dubai-brochure.pdf''] None"
  let ?u0 = "mkURL ''https'' ''example.com'' [''dubai'', ''villas''] (Some ''map'')"
  let ?al = "[''example.com'']"
  have b1: "exampleParse ''https://example.com/downloads/dubai-brochure.pdf'' = Some ?b"
    by code_simp
  have b2: "isLikelyBinaryAsset (pathname (clearHash ?b))" by code_simp
  from frontier_filter [where parse = exampleParse
      and reqUrl = "''https://example.com/downloads/dubai-brochure.pdf''" and ?u0.0 = ?b
      and sameDomainOnly = True and al = ?al and hp = "[(''example.com'', [''/''])]"] b1 b2
  have b3: "transformRequestFunction exampleParse True ?al [(''example.com'', [''/''])]
     ''https://example.com/downloads/dubai-brochure.pdf'' = None"
    by blast
  have s1: "path ?u0 = Segments [''dubai'', ''villas'']" by code_simp
  have s2: "(case fragment ?u0 of None \<Rightarrow> [] | Some f \<Rightarrow> CHR ''#'' # f) = ''#map''" by code_simp
  note inst = frontier_filter [where parse = exampleParse
      and reqUrl = "''https://example.com/dubai/villas#map''" and ?u0.0 = ?u0
      and sameDomainOnly = True and al = ?al and hp = "[(''example.com'', [''/dubai/''])]"
      and ss = "[''dubai'', ''villas'']"]
  from inst s1 have
    "href ?u0 = href (clearHash ?u0) @ (case fragment ?u0 of None \<Rightarrow> [] | Some f \<Rightarrow> CHR ''#'' # f)"
    by blast
  with s2 have s3: "href ?u0 = href (clearHash ?u0) @ ''#map''" by (simp only:)
  have c: "(case exampleParse ''https://example.com/dubai/villas#map'' of
        None \<Rightarrow> None
      | Some u0 \<Rightarrow>
          if (protocol (clearHash u0) = ''http:'' \<or> protocol (clearHash u0) = ''https:'') \<and>
             isInScope (clearHash u0) True ?al [(''example.com'', [''/dubai/''])] \<and>
             \<not> isLikelyBinaryAsset (pathname (clearHash u0))
          then Some (href (clearHash u0)) else None) = Some ''https://example.com/dubai/villas''"
    by code_simp
  from inst have "transformRequestFunction exampleParse True ?al [(''example.com'', [''/dubai/''])]
     ''https://example.com/dubai/villas#map'' =
     (case exampleParse ''https://example.com/dubai/villas#map'' of
        None \<Rightarrow> None
      | Some u0 \<Rightarrow>
          if (protocol (clearHash u0) = ''http:'' \<or> protocol (clearHash u0) = ''https:'') \<and>
             isInScope (clearHash u0) True ?al [(''example.com'', [''/dubai/''])] \<and>
             \<not> isLikelyBinaryAsset (pathname (clearHash u0))
          then Some (href (clearHash u0)) else None)"
    by blast
  with c have s4: "transformRequestFunction exampleParse True ?al [(''example.com'', [''/dubai/''])]
     ''https://example.com/dubai/villas#map'' = Some ''https://example.com/dubai/villas''"
    by (simp only:)
  from b1 b3 s1 s3 s4 show ?thesis by blast
qed

section \<open>Claims about the Discovery Set\<close>

lemma processHref_member:
  "m \<in> set (processHref parse sameDomainOnly al hp tk discovered link) \<Longrightarrow>
   m \<in> set discovered \<or>
   (\<exists>u0 u. \<not> isSkippableScheme link \<and> parse link = Some u0 \<and>
           parse (stripFragment (href u0)) = Some u \<and> m = href u \<and>
           handlerCollects sameDomainOnly al hp tk u)"
  by (auto simp: processHref_def Let_def set_Set_add split: if_splits option.splits)

lemma requestHandler_snoc:
  "requestHandler parse sameDomainOnly al hp tk discovered (links @ [link]) =
   processHref parse sameDomainOnly al hp tk
     (requestHandler parse sameDomainOnly al hp tk discovered links) link"
  by (simp add: requestHandler_def)

lemma requestHandler_member:
  "m \<in> set (requestHandler parse sameDomainOnly al hp tk discovered pageLinks) \<Longrightarrow>
   m \<in> set discovered \<or>
   (\<exists>link \<in> set pageLinks. \<exists>u0 u.
       \<not> isSkippableScheme link \<and> parse link = Some u0 \<and>
       parse (stripFragment (href u0)) = Some u \<and> m = href u \<and>
       handlerCollects sameDomainOnly al hp tk u)"
proof (induction pageLinks rule: rev_induct)
  case Nil
  then show ?case by (simp add: requestHandler_def)
next
  case (snoc link links)
  from snoc.prems have
    "m \<in> set (requestHandler parse sameDomainOnly al hp tk discovered links) \<or>
     (\<exists>u0 u. \<not> isSkippableScheme link \<and> parse link = Some u0 \<and>
           parse (stripFragment (href u0)) = Some u \<and> m = href u \<and>
           handlerCollects sameDomainOnly al hp tk u)"
    unfolding requestHandler_snoc by (rule processHref_member)
  then show ?case
  proof
    assume "m \<in> set (requestHandler parse sameDomainOnly al hp tk discovered links)"
    from snoc.IH [OF this] show ?thesis by auto
  next
    assume "\<exists>u0 u. \<not> isSkippableScheme link \<and> parse link = Some u0 \<and>
           parse (stripFragment (href u0)) = Some u \<and> m = href u \<and>
           handlerCollects sameDomainOnly al hp tk u"
    then show ?thesis by auto
  qed
qed

lemma stripFragment_no_hash: "CHR ''#'' \<notin> set (stripFragment s)"
  by (auto simp: stripFragment_def dest: set_takeWhileD)

lemma exampleParse_href: "exampleParse s = Some u \<Longrightarrow> href u = s"
proof -
  have all: "list_all (\<lambda>(s, u). href u = s) exampleURLs" by code_simp
  assume "exampleParse s = Some u"
  then have "(s, u) \<in> set exampleURLs"
    unfolding exampleParse_def by (rule map_of_SomeD)
  with all show ?thesis by (auto simp: list_all_iff)
qed

text \<open>
  Claim C4, as amended (Discovery Set invariant). Every URL the handler adds to the
  Discovery Set is the serialisation of a URL parsed from a string without \<open>#\<close>, and
  comes from a link that does not start, in any letter case, with \<open>javascript:\<close>,
  \<open>mailto:\<close>, \<open>tel:\<close> or \<open>data:\<close>. When the parser gives a serialisation without
  \<open>#\<close> for every input without \<open>#\<close>, no member has a fragment. A link with one of
  the four schemes, such as \<open>javascript:void(0)\<close>, leaves the set as it is. The scheme
  of a member is not restricted to http and https.
\<close>

theorem discovery_members:
  "(m \<in> set (requestHandler parse sameDomainOnly al hp tk discovered pageLinks) \<longrightarrow>
      m \<in> set discovered \<or>
      (\<exists>link \<in> set pageLinks. \<exists>u0 u.
          \<not> isSkippableScheme link \<and> parse link = Some u0 \<and>
          CHR ''#'' \<notin> set (stripFragment (href u0)) \<and>
          parse (stripFragment (href u0)) = Some u \<and> m = href u)) \<and>
   ((\<forall>s u. parse s = Some u \<and> CHR ''#'' \<notin> set s \<longrightarrow> CHR ''#'' \<notin> set (href u)) \<and>
    m \<in> set (requestHandler parse sameDomainOnly al hp tk [] pageLinks) \<longrightarrow>
      CHR ''#'' \<notin> set m) \<and>
   (isSkippableScheme link \<longrightarrow>
      processHref parse sameDomainOnly al hp tk discovered link = discovered) \<and>
   isSkippableScheme ''javascript:void(0)''"
proof (intro conjI impI)
  assume "m \<in> set (requestHandler parse sameDomainOnly al hp tk discovered pageLinks)"
  from requestHandler_member [OF this]
  show "m \<in> set discovered \<or>
      (\<exists>link \<in> set pageLinks. \<exists>u0 u.
          \<not> isSkippableScheme link \<and> parse link = Some u0 \<and>
          CHR ''#'' \<notin> set (stripFragment (href u0)) \<and>
          parse (stripFragment (href u0)) = Some u \<and> m = href u)"
    using stripFragment_no_hash by blast
next
  assume a: "(\<forall>s u. parse s = Some u \<and> CHR ''#'' \<notin> set s \<longrightarrow> CHR ''#'' \<notin> set (href u)) \<and>
    m \<in> set (requestHandler parse sameDomainOnly al hp tk [] pageLinks)"
  then have "m \<in> set (requestHandler parse sameDomainOnly al hp tk [] pageLinks)" by blast
  from requestHandler_member [OF this] obtain u0 u where
    "parse (stripFragment (href u0)) = Some u" "m = href u"
    by auto
  with a stripFragment_no_hash show "CHR ''#'' \<notin> set m" by blast
next
  assume "isSkippableScheme link"
  then show "processHref parse sameDomainOnly al hp tk discovered link = discovered"
    by (simp add: processHref_def)
next
  show "isSkippableScheme ''javascript:void(0)''" by code_simp
qed

text \<open>The theorem at a link with a fragment, for the parser of the examples.\<close>

theorem discovery_members_witness:
  "''https://example.com/dubai/villas'' \<in>
     set (requestHandler exampleParse True [''example.com''] [(''example.com'', [''/dubai/''])]
            [(''example.com'', [''dubai''])] [] [''https://example.com/dubai/villas#map'']) \<and>
   CHR ''#'' \<notin> set ''https://example.com/dubai/villas''"
proof -
  let ?R = "requestHandler exampleParse True [''example.com''] [(''example.com'', [''/dubai/''])]
            [(''example.com'', [''dubai''])] [] [''https://example.com/dubai/villas#map'']"
  have h1: "\<forall>s u. exampleParse s = Some u \<and> CHR ''#'' \<notin> set s \<longrightarrow> CHR ''#'' \<notin> set (href u)"
    using exampleParse_href by blast
  have h2: "''https://example.com/dubai/villas'' \<in> set ?R" by code_simp
  from discovery_members [of "''https://example.com/dubai/villas''" exampleParse True
      "[''example.com'']" "[(''example.com'', [''/dubai/''])]" "[(''example.com'', [''dubai''])]"
      "[]" "[''https://example.com/dubai/villas#map'']"] h1 h2
  have "CHR ''#'' \<notin> set ''https://example.com/dubai/villas''" by blast
  with h2 show ?thesis by blast
qed

text \<open>
  The claim as stated fails: with the seed \<open>https://example.com/\<close> and the default
  \<open>sameDomainOnly\<close>, a page that links to \<open>ftp://example.com/files/\<close> puts that URL
  into the output of the run.
\<close>

theorem discovery_scheme_counterexample:
  "main exampleParse (exampleEngine [[''ftp://example.com/files/'']])
     [''node'', ''crawler.js'', ''https://example.com/''] None None =
     Inr [''ftp://example.com/files/''] \<and>
   \<not> startsWith ''ftp://example.com/files/'' ''http:'' \<and>
   \<not> startsWith ''ftp://example.com/files/'' ''https:''"
  by code_simp

lemma set_foldl_Set_add: "set (foldl (\<lambda>S x. Set_add x S) S0 urls) = set S0 \<union> set urls"
  by (induction urls arbitrary: S0) (auto simp: set_Set_add)

lemma distinct_foldl_Set_add:
  "distinct S0 \<Longrightarrow> distinct (foldl (\<lambda>S x. Set_add x S) S0 urls)"
  by (induction urls arbitrary: S0) (simp_all add: distinct_Set_add)

lemma processHref_mono:
  "set discovered \<subseteq> set (processHref parse sameDomainOnly al hp tk discovered link)"
  by (auto simp: processHref_def Let_def set_Set_add split: option.splits)

lemma requestHandler_mono:
  "set discovered \<subseteq> set (requestHandler parse sameDomainOnly al hp tk discovered pageLinks)"
proof (induction pageLinks rule: rev_induct)
  case Nil
  show ?case by (simp add: requestHandler_def)
next
  case (snoc link links)
  from snoc processHref_mono show ?case
    unfolding requestHandler_snoc by blast
qed

lemma distinct_processHref:
  "distinct discovered \<Longrightarrow>
   distinct (processHref parse sameDomainOnly al hp tk discovered link)"
  by (simp add: processHref_def Let_def distinct_Set_add split: option.splits)

lemma distinct_requestHandler:
  "distinct discovered \<Longrightarrow>
   distinct (requestHandler parse sameDomainOnly al hp tk discovered pageLinks)"
  by (induction pageLinks rule: rev_induct)
     (simp_all add: requestHandler_snoc distinct_processHref, simp add: requestHandler_def)

lemma distinct_visits:
  "distinct discovered \<Longrightarrow>
   distinct (foldl (requestHandler parse sameDomainOnly al hp tk) discovered visits)"
  by (induction visits arbitrary: discovered) (simp_all add: distinct_requestHandler)

text \<open>
  Claim C7 (Discovery Set snapshot). Recording a URL twice is recording it once; recording
  and the handler only add members; the snapshot of the URLs recorded from the empty set
  is sorted in ascending lexicographic order, has no duplicates and has exactly the
  recorded URLs as members. The output of a run is sorted and free of duplicates.
\<close>

theorem discovery_set_snapshot:
  "Set_add x (Set_add x discovered) = Set_add x discovered \<and>
   set discovered \<subseteq> set (Set_add x discovered) \<and>
   set discovered \<subseteq> set (requestHandler parse sameDomainOnly al hp tk discovered pageLinks) \<and>
   sorted (snapshot (foldl (\<lambda>S x. Set_add x S) [] urls)) \<and>
   distinct (snapshot (foldl (\<lambda>S x. Set_add x S) [] urls)) \<and>
   set (snapshot (foldl (\<lambda>S x. Set_add x S) [] urls)) = set urls \<and>
   (main parse crawlee argv envStartUrl envSameDomainOnly = Inr out \<longrightarrow>
      sorted out \<and> distinct out)"
proof (intro conjI)
  show "Set_add x (Set_add x discovered) = Set_add x discovered" by (rule Set_add_twice)
  show "set discovered \<subseteq> set (Set_add x discovered)" by (auto simp: set_Set_add)
  show "set discovered \<subseteq> set (requestHandler parse sameDomainOnly al hp tk discovered pageLinks)"
    by (rule requestHandler_mono)
  show "sorted (snapshot (foldl (\<lambda>S x. Set_add x S) [] urls))"
    by (simp add: snapshot_def)
  show "distinct (snapshot (foldl (\<lambda>S x. Set_add x S) [] urls))"
    by (simp add: snapshot_def distinct_foldl_Set_add)
  show "set (snapshot (foldl (\<lambda>S x. Set_add x S) [] urls)) = set urls"
    by (simp add: snapshot_def set_foldl_Set_add)
  show "main parse crawlee argv envStartUrl envSameDomainOnly = Inr out \<longrightarrow>
      sorted out \<and> distinct out"
    by (auto simp: main_def Let_def snapshot_def distinct_visits
             split: sum.splits option.splits if_splits)
qed

text \<open>The theorem at a run on one page with three links, two of them to the same URL.\<close>

theorem discovery_set_snapshot_witness:
  "main exampleParse
     (exampleEngine [[''https://example.com/dubai/villas'', ''https://example.com/dubai/'',
                      ''https://example.com/dubai/villas#map'']])
     [''node'', ''crawler.js'', ''https://example.com/dubai/''] None None =
     Inr [''https://example.com/dubai/'', ''https://example.com/dubai/villas''] \<and>
   sorted [''https://example.com/dubai/'', ''https://example.com/dubai/villas''] \<and>
   distinct [''https://example.com/dubai/'', ''https://example.com/dubai/villas'']"
proof -
  have h: "main exampleParse
     (exampleEngine [[''https://example.com/dubai/villas'', ''https://example.com/dubai/'',
                      ''https://example.com/dubai/villas#map'']])
     [''node'', ''crawler.js'', ''https://example.com/dubai/''] None None =
     Inr [''https://example.com/dubai/'', ''https://example.com/dubai/villas'']"
    by code_simp
  from discovery_set_snapshot [where parse = exampleParse
      and argv = "[''node'', ''crawler.js'', ''https://example.com/dubai/'']"
      and envStartUrl = None and envSameDomainOnly = None
      and crawlee = "exampleEngine [[''https://example.com/dubai/villas'',
                     ''https://example.com/dubai/'', ''https://example.com/dubai/villas#map'']]"
      and out = "[''https://example.com/dubai/'', ''https://example.com/dubai/villas'']"] h
  have "sorted [''https://example.com/dubai/'', ''https://example.com/dubai/villas''] \<and>
        distinct [''https://example.com/dubai/'', ''https://example.com/dubai/villas'']"
    by blast
  with h show ?thesis by blast
qed

section \<open>Claims about the two extraction paths\<close>

text \<open>
  Claim C5, as amended (path equivalence). For a URL the Link Classifier does not mark as
  an asset, the handler collects it exactly when \<open>isInScope\<close>, the scope check of the
  Frontier Filter, admits it with the same tables. For an http or https link of that kind
  whose fragment-free serialisation parses back to the same URL without fragment, the
  handler records exactly the URL the Frontier Filter returns, and nothing when the filter
  drops it. For assets the handler applies the relaxed asset rule instead.
\<close>

theorem paths_agree_on_pages:
  "(\<not> isLikelyBinaryAsset (pathname u) \<longrightarrow>
      handlerCollects sameDomainOnly al hp tk u = isInScope u sameDomainOnly al hp) \<and>
   (\<not> isSkippableScheme link \<and> parse link = Some u0 \<and>
    parse (stripFragment (href u0)) = Some (clearHash u0) \<and>
    (protocol u0 = ''http:'' \<or> protocol u0 = ''https:'') \<and>
    \<not> isLikelyBinaryAsset (pathname (clearHash u0)) \<longrightarrow>
      processHref parse sameDomainOnly al hp tk [] link =
        (case transformRequestFunction parse sameDomainOnly al hp link of
           None \<Rightarrow> [] | Some url \<Rightarrow> [url]))"
proof (intro conjI impI)
  assume "\<not> isLikelyBinaryAsset (pathname u)"
  then show "handlerCollects sameDomainOnly al hp tk u = isInScope u sameDomainOnly al hp"
    by (simp add: handlerCollects_def)
next
  assume a: "\<not> isSkippableScheme link \<and> parse link = Some u0 \<and>
    parse (stripFragment (href u0)) = Some (clearHash u0) \<and>
    (protocol u0 = ''http:'' \<or> protocol u0 = ''https:'') \<and>
    \<not> isLikelyBinaryAsset (pathname (clearHash u0))"
  then have p: "protocol (clearHash u0) = ''http:'' \<or> protocol (clearHash u0) = ''https:''"
    by (simp add: protocol_clearHash)
  from a have c: "handlerCollects sameDomainOnly al hp tk (clearHash u0) =
      isInScope (clearHash u0) sameDomainOnly al hp"
    by (simp add: handlerCollects_def)
  from a have l: "processHref parse sameDomainOnly al hp tk [] link =
      (if handlerCollects sameDomainOnly al hp tk (clearHash u0)
       then [href (clearHash u0)] else [])"
    by (simp add: processHref_def Let_def Set_add_def)
  from a p have r: "transformRequestFunction parse sameDomainOnly al hp link =
      (if isInScope (clearHash u0) sameDomainOnly al hp then Some (href (clearHash u0)) else None)"
    by (auto simp: transformRequestFunction_def Let_def)
  show "processHref parse sameDomainOnly al hp tk [] link =
        (case transformRequestFunction parse sameDomainOnly al hp link of
           None \<Rightarrow> [] | Some url \<Rightarrow> [url])"
    by (simp add: l r c)
qed

text \<open>The theorem at \<open>https://example.com/dubai/villas#map\<close>.\<close>

theorem paths_agree_on_pages_witness:
  "\<not> isLikelyBinaryAsset
       (pathname (clearHash (mkURL ''https'' ''example.com'' [''dubai'', ''villas''] (Some ''map'')))) \<and>
   exampleParse ''https://example.com/dubai/villas#map'' =
     Some (mkURL ''https'' ''example.com'' [''dubai'', ''villas''] (Some ''map'')) \<and>
   processHref exampleParse True [''example.com''] [(''example.com'', [''/dubai/''])]
     [(''example.com'', [''dubai''])] [] ''https://example.com/dubai/villas#map'' =
     (case transformRequestFunction exampleParse True [''example.com'']
             [(''example.com'', [''/dubai/''])] ''https://example.com/dubai/villas#map'' of
        None \<Rightarrow> [] | Some url \<Rightarrow> [url])"
proof -
  let ?u0 = "mkURL ''https'' ''example.com'' [''dubai'', ''villas''] (Some ''map'')"
  let ?link = "''https://example.com/dubai/villas#map''"
  have h1: "\<not> isSkippableScheme ?link" by code_simp
  have h2: "exampleParse ?link = Some ?u0" by code_simp
  have h3: "exampleParse (stripFragment (href ?u0)) = Some (clearHash ?u0)" by code_simp
  have h4: "protocol ?u0 = ''http:'' \<or> protocol ?u0 = ''https:''" by code_simp
  have h5: "\<not> isLikelyBinaryAsset (pathname (clearHash ?u0))" by code_simp
  from paths_agree_on_pages [of "clearHash ?u0" True "[''example.com'']"
      "[(''example.com'', [''/dubai/''])]" "[(''example.com'', [''dubai''])]" ?link exampleParse ?u0]
    h1 h2 h3 h4 h5
  show ?thesis by blast
qed

text \<open>
  The claim as stated fails on assets: with the seed \<open>https://example.com/dubai/\<close> the
  handler collects \<open>https://example.com/downloads/dubai-brochure.pdf\<close>, which
  \<open>isInScope\<close> rejects.
\<close>

theorem paths_disagree_on_assets_counterexample:
  "handlerCollects True (getAllowedHostnames exampleParse [''https://example.com/dubai/''])
     (getHostnameToPathPrefixes exampleParse [''https://example.com/dubai/''])
     (getHostnameToScopeTokens (getHostnameToPathPrefixes exampleParse [''https://example.com/dubai/'']))
     (mkURL ''https'' ''example.com'' [''downloads'', ''dubai-brochure.pdf''] None) \<and>
   \<not> isInScope (mkURL ''https'' ''example.com'' [''downloads'', ''dubai-brochure.pdf''] None) True
       (getAllowedHostnames exampleParse [''https://example.com/dubai/''])
       (getHostnameToPathPrefixes exampleParse [''https://example.com/dubai/''])"
  by code_simp

section \<open>Claims about the Path Prefix Table\<close>

lemma seedPrefix_root: "pathname x = ''/'' \<Longrightarrow> seedPrefix x = ''/''"
  by (simp add: seedPrefix_def orElse_def normalizePathPrefix_def trim_def isWhiteSpace_def
        startsWith_def endsWith_def Let_def)

lemma distinct_singleton_set: "distinct ps \<Longrightarrow> set ps = {a} \<Longrightarrow> ps = [a]"
proof (cases ps)
  case Nil
  assume "set ps = {a}"
  with Nil show ?thesis by simp
next
  case (Cons b bs)
  assume "distinct ps" and "set ps = {a}"
  with Cons have "b = a" and "set bs \<subseteq> {a}" and "a \<notin> set bs" by auto
  then have "bs = []" by (cases bs) auto
  with Cons \<open>b = a\<close> show ?thesis by simp
qed

text \<open>
  Claim C6, as amended (Path Prefix Table construction). Every prefix recorded in the Path
  Prefix Table starts and ends with \<open>/\<close>; the letter case of the seed's path is kept.
  A host all of whose seeds have the path \<open>/\<close> has the single prefix \<open>/\<close>, and
  with that entry every path on the host is admitted: \<open>isInScope\<close> is the host check
  alone.
\<close>

theorem prefix_table_shape:
  "(map_of (getHostnameToPathPrefixes parse urls) h = Some ps \<and> p \<in> set ps \<longrightarrow>
      startsWith p ''/'' \<and> endsWith p ''/'') \<and>
   ((\<forall>s \<in> set urls. \<forall>x. parse s = Some x \<and> hostname x = h \<longrightarrow> pathname x = ''/'') \<and>
    (\<exists>s \<in> set urls. \<exists>x. parse s = Some x \<and> hostname x = h) \<longrightarrow>
      map_of (getHostnameToPathPrefixes parse urls) h = Some [''/'']) \<and>
   (map_of (getHostnameToPathPrefixes parse urls) (hostname u) = Some [''/''] \<longrightarrow>
      isInScope u sameDomainOnly al (getHostnameToPathPrefixes parse urls) =
        (sameDomainOnly \<longrightarrow> hostname u \<in> set al))"
proof (intro conjI)
  show "map_of (getHostnameToPathPrefixes parse urls) h = Some ps \<and> p \<in> set ps \<longrightarrow>
      startsWith p ''/'' \<and> endsWith p ''/''"
  proof
    assume "map_of (getHostnameToPathPrefixes parse urls) h = Some ps \<and> p \<in> set ps"
    with prefix_table_entries [where parse = parse and urls = urls and h = h]
    obtain x where "p = seedPrefix x"
      by auto
    then show "startsWith p ''/'' \<and> endsWith p ''/''"
      by (simp add: seedPrefix_def normalizePathPrefix_startsWith normalizePathPrefix_endsWith)
  qed
  show "(\<forall>s \<in> set urls. \<forall>x. parse s = Some x \<and> hostname x = h \<longrightarrow> pathname x = ''/'') \<and>
    (\<exists>s \<in> set urls. \<exists>x. parse s = Some x \<and> hostname x = h) \<longrightarrow>
      map_of (getHostnameToPathPrefixes parse urls) h = Some [''/'']"
  proof
    assume a: "(\<forall>s \<in> set urls. \<forall>x. parse s = Some x \<and> hostname x = h \<longrightarrow> pathname x = ''/'') \<and>
      (\<exists>s \<in> set urls. \<exists>x. parse s = Some x \<and> hostname x = h)"
    show "map_of (getHostnameToPathPrefixes parse urls) h = Some [''/'']"
    proof (cases "map_of (getHostnameToPathPrefixes parse urls) h")
      case None
      with prefix_table_entries [where parse = parse and urls = urls and h = h] a
      show ?thesis by auto
    next
      case (Some qs)
      with prefix_table_entries [where parse = parse and urls = urls and h = h] have
        d: "distinct qs" and
        s: "set qs = seedPrefix ` {x. \<exists>s \<in> set urls. parse s = Some x \<and> hostname x = h}"
        by auto
      define X where "X = {x. \<exists>s \<in> set urls. parse s = Some x \<and> hostname x = h}"
      from a obtain x0 where x0: "x0 \<in> X"
        unfolding X_def by blast
      from a have r: "\<forall>x \<in> X. seedPrefix x = ''/''"
        unfolding X_def by (auto intro: seedPrefix_root)
      from r have "seedPrefix ` X \<subseteq> {''/''}" by blast
      moreover from x0 r have "''/'' \<in> seedPrefix ` X" by force
      ultimately have "seedPrefix ` X = {''/''}" by blast
      then have
        "seedPrefix ` {x. \<exists>s \<in> set urls. parse s = Some x \<and> hostname x = h} = {''/''}"
        unfolding X_def .
      with s have "set qs = {''/''}" by simp
      with d have "qs = [''/'']" by (rule distinct_singleton_set)
      with Some show ?thesis by simp
    qed
  qed
  show "map_of (getHostnameToPathPrefixes parse urls) (hostname u) = Some [''/''] \<longrightarrow>
      isInScope u sameDomainOnly al (getHostnameToPathPrefixes parse urls) =
        (sameDomainOnly \<longrightarrow> hostname u \<in> set al)"
    using normalizePathPrefix_startsWith [of "orElse (pathname u) ''/''"]
    by (auto simp: isInScope_def Let_def)
qed

text \<open>The theorem at the seed \<open>https://example.com/\<close>.\<close>

theorem prefix_table_shape_witness:
  "(\<exists>s \<in> set [''https://example.com/'']. \<exists>x.
       exampleParse s = Some x \<and> hostname x = ''example.com'') \<and>
   map_of (getHostnameToPathPrefixes exampleParse [''https://example.com/'']) ''example.com'' =
     Some [''/''] \<and>
   startsWith ''/'' ''/'' \<and> endsWith ''/'' ''/'' \<and>
   isInScope (mkURL ''https'' ''example.com'' [''sharjah'', ''villas''] None) True
     [''example.com''] (getHostnameToPathPrefixes exampleParse [''https://example.com/''])"
proof -
  let ?u = "mkURL ''https'' ''example.com'' [''sharjah'', ''villas''] None"
  let ?r = "mkURL ''https'' ''example.com'' [[]] None"
  let ?T = "getHostnameToPathPrefixes exampleParse [''https://example.com/'']"
  have e: "exampleParse ''https://example.com/'' = Some ?r" by code_simp
  have r1: "hostname ?r = ''example.com''" by code_simp
  have r2: "pathname ?r = ''/''" by code_simp
  from e r2 have h1: "\<forall>s \<in> set [''https://example.com/'']. \<forall>x.
      exampleParse s = Some x \<and> hostname x = ''example.com'' \<longrightarrow> pathname x = ''/''"
    by auto
  from e r1 have h2: "\<exists>s \<in> set [''https://example.com/'']. \<exists>x.
      exampleParse s = Some x \<and> hostname x = ''example.com''"
    by auto
  have h3: "hostname ?u = ''example.com''" by code_simp
  have h4: "''/'' \<in> set [''/'']" by simp
  note inst = prefix_table_shape [where parse = exampleParse and urls = "[''https://example.com/'']"
      and h = "''example.com''" and ps = "[''/'']" and p = "''/''" and u = ?u
      and sameDomainOnly = True and al = "[''example.com'']"]
  from inst h1 h2 have t: "map_of ?T ''example.com'' = Some [''/'']" by blast
  from inst t h4 have s: "startsWith ''/'' ''/'' \<and> endsWith ''/'' ''/''" by blast
  from t h3 have "map_of ?T (hostname ?u) = Some [''/'']" by simp
  with inst have "isInScope ?u True [''example.com''] ?T = (True \<longrightarrow> hostname ?u \<in> set [''example.com''])"
    by blast
  with h3 have i: "isInScope ?u True [''example.com''] ?T" by simp
  from h2 t s i show ?thesis by blast
qed

text \<open>
  The claim as stated fails: the seed \<open>https://example.com/Dubai/\<close> records the prefix
  \<open>/Dubai/\<close>, which is not lower-cased.
\<close>

theorem prefix_table_case_counterexample:
  "getHostnameToPathPrefixes exampleParse [''https://example.com/Dubai/''] =
     [(''example.com'', [''/Dubai/''])] \<and>
   toLowerCase ''/Dubai/'' \<noteq> ''/Dubai/''"
  by code_simp

section \<open>Claims about failures\<close>






section \<open>Claims about assets on hosts without scope tokens\<close>

lemma token_table_absent:
  "(\<forall>s \<in> set seeds. \<forall>x. parse s = Some x \<longrightarrow> hostname x \<noteq> h) \<Longrightarrow>
   map_of (getHostnameToScopeTokens (getHostnameToPathPrefixes parse seeds)) h = None"
proof -
  assume a: "\<forall>s \<in> set seeds. \<forall>x. parse s = Some x \<longrightarrow> hostname x \<noteq> h"
  have "map_of (getHostnameToPathPrefixes parse seeds) h = None"
  proof (cases "map_of (getHostnameToPathPrefixes parse seeds) h")
    case None
    then show ?thesis .
  next
    case (Some ps)
    define X where "X = {x. \<exists>s \<in> set seeds. parse s = Some x \<and> hostname x = h}"
    from Some prefix_table_entries [where parse = parse and urls = seeds and h = h]
    have ne: "ps \<noteq> []" and sp: "set ps = seedPrefix ` X"
      unfolding X_def by auto
    from a have "X = {}"
      unfolding X_def by blast
    with sp have "set ps = {}" by (simp only: image_empty)
    with ne show ?thesis by simp
  qed
  then show ?thesis
    by (simp add: token_table_entries [OF distinct_keys_prefix_table])
qed

text \<open>
  Claim C10 (assets on a host without scope tokens). \<open>assetMatchesScope\<close> holds for
  every URL whose host name has no entry, or an empty one, in the Scope Token Table; a host
  name that no parsed seed has is without an entry in the table built from the seeds. An
  asset link on such a host that passes the host check is in the Discovery Set after the
  iteration.
\<close>

theorem assets_without_tokens:
  "((map_of tk (hostname u) = None \<or> map_of tk (hostname u) = Some []) \<longrightarrow>
      assetMatchesScope u tk) \<and>
   ((\<forall>s \<in> set seeds. \<forall>x. parse s = Some x \<longrightarrow> hostname x \<noteq> hostname u) \<longrightarrow>
      assetMatchesScope u (getHostnameToScopeTokens (getHostnameToPathPrefixes parse seeds))) \<and>
   (\<not> isSkippableScheme link \<and> parse link = Some u0 \<and>
    parse (stripFragment (href u0)) = Some u \<and>
    isLikelyBinaryAsset (pathname u) \<and>
    (\<not> sameDomainOnly \<or> hostname u \<in> set al) \<and>
    (map_of tk (hostname u) = None \<or> map_of tk (hostname u) = Some []) \<longrightarrow>
      href u \<in> set (processHref parse sameDomainOnly al hp tk discovered link))"
proof (intro conjI)
  show t: "(map_of tk (hostname u) = None \<or> map_of tk (hostname u) = Some []) \<longrightarrow>
      assetMatchesScope u tk"
    by (auto simp: assetMatchesScope_def)
  show "(\<forall>s \<in> set seeds. \<forall>x. parse s = Some x \<longrightarrow> hostname x \<noteq> hostname u) \<longrightarrow>
      assetMatchesScope u (getHostnameToScopeTokens (getHostnameToPathPrefixes parse seeds))"
    by (simp add: assetMatchesScope_def token_table_absent)
  show "\<not> isSkippableScheme link \<and> parse link = Some u0 \<and>
    parse (stripFragment (href u0)) = Some u \<and>
    isLikelyBinaryAsset (pathname u) \<and>
    (\<not> sameDomainOnly \<or> hostname u \<in> set al) \<and>
    (map_of tk (hostname u) = None \<or> map_of tk (hostname u) = Some []) \<longrightarrow>
      href u \<in> set (processHref parse sameDomainOnly al hp tk discovered link)"
  proof
    assume a: "\<not> isSkippableScheme link \<and> parse link = Some u0 \<and>
      parse (stripFragment (href u0)) = Some u \<and>
      isLikelyBinaryAsset (pathname u) \<and>
      (\<not> sameDomainOnly \<or> hostname u \<in> set al) \<and>
      (map_of tk (hostname u) = None \<or> map_of tk (hostname u) = Some [])"
    with t have "assetMatchesScope u tk" by blast
    with a have "handlerCollects sameDomainOnly al hp tk u"
      by (simp add: handlerCollects_def)
    with a show "href u \<in> set (processHref parse sameDomainOnly al hp tk discovered link)"
      by (simp add: processHref_def Let_def set_Set_add)
  qed
qed

text \<open>
  The theorem at \<open>https://cdn.example.net/files/report.pdf\<close>, with the seed
  \<open>https://example.com/dubai/\<close> and \<open>sameDomainOnly\<close> off.
\<close>

theorem assets_without_tokens_witness:
  "getAllowedHostnames exampleParse [''https://example.com/dubai/''] = [''example.com''] \<and>
   hostname (mkURL ''https'' ''cdn.example.net'' [''files'', ''report.pdf''] None) =
     ''cdn.example.net'' \<and>
   isLikelyBinaryAsset (pathname (mkURL ''https'' ''cdn.example.net'' [''files'', ''report.pdf''] None)) \<and>
   map_of [(''example.com'', [''dubai''])]
     (hostname (mkURL ''https'' ''cdn.example.net'' [''files'', ''report.pdf''] None)) = None \<and>
   assetMatchesScope (mkURL ''https'' ''cdn.example.net'' [''files'', ''report.pdf''] None)
     (getHostnameToScopeTokens
        (getHostnameToPathPrefixes exampleParse [''https://example.com/dubai/''])) \<and>
   href (mkURL ''https'' ''cdn.example.net'' [''files'', ''report.pdf''] None) \<in>
     set (processHref exampleParse False [''example.com''] [(''example.com'', [''/dubai/''])]
            [(''example.com'', [''dubai''])] [] ''https://cdn.example.net/files/report.pdf'')"
proof -
  let ?u = "mkURL ''https'' ''cdn.example.net'' [''files'', ''report.pdf''] None"
  let ?link = "''https://cdn.example.net/files/report.pdf''"
  let ?tk = "[(''example.com'', [''dubai''])]"
  have e: "exampleParse ''https://example.com/dubai/'' =
             Some (mkURL ''https'' ''example.com'' [''dubai'', []] None)"
    by code_simp
  have n: "hostname (mkURL ''https'' ''example.com'' [''dubai'', []] None) \<noteq> hostname ?u"
    by code_simp
  from e n have h0: "\<forall>s \<in> set [''https://example.com/dubai/'']. \<forall>x.
       exampleParse s = Some x \<longrightarrow> hostname x \<noteq> hostname ?u"
    by auto
  have h1: "\<not> isSkippableScheme ?link" by code_simp
  have h2: "exampleParse ?link = Some ?u" by code_simp
  have h3: "exampleParse (stripFragment (href ?u)) = Some ?u" by code_simp
  have h4: "isLikelyBinaryAsset (pathname ?u)" by code_simp
  have h5: "map_of ?tk (hostname ?u) = None" by code_simp
  note inst = assets_without_tokens [where u = ?u and tk = ?tk and parse = exampleParse
      and seeds = "[''https://example.com/dubai/'']" and link = ?link and ?u0.0 = ?u
      and sameDomainOnly = False and al = "[''example.com'']"
      and hp = "[(''example.com'', [''/dubai/''])]" and discovered = "[]"]
  from inst h0 have a: "assetMatchesScope ?u
     (getHostnameToScopeTokens
        (getHostnameToPathPrefixes exampleParse [''https://example.com/dubai/'']))"
    by blast
  from inst h1 h2 h3 h4 h5 have b: "href ?u \<in>
     set (processHref exampleParse False [''example.com''] [(''example.com'', [''/dubai/''])]
            ?tk [] ?link)"
    by blast
  have g: "getAllowedHostnames exampleParse [''https://example.com/dubai/''] = [''example.com'']"
    by code_simp
  have c: "hostname ?u = ''cdn.example.net''" by code_simp
  from g c h4 h5 a b show ?thesis by blast
qed

section \<open>The plain links crawler and normalisation\<close>

text \<open>
  The filter of \<open>playwrightLinksCrawler.ts\<close> accepts on the protocol and the host
  alone, so it accepts an asset; its handler records strings without \<open>#\<close>.
\<close>

lemma links_filter:
  "parse reqUrl = Some u0 \<Longrightarrow>
   transformRequestFunction_links parse sameDomainOnly al reqUrl =
     (if (protocol u0 = ''http:'' \<or> protocol u0 = ''https:'') \<and>
         (sameDomainOnly \<longrightarrow> hostname u0 \<in> set al)
      then Some (href (clearHash u0)) else None)"
  by (auto simp: transformRequestFunction_links_def Let_def protocol_clearHash hostname_clearHash)

lemma links_filter_accepts_asset:
  "transformRequestFunction_links exampleParse True [''example.com'']
     ''https://example.com/downloads/dubai-brochure.pdf'' =
   Some ''https://example.com/downloads/dubai-brochure.pdf''"
  by code_simp

lemma processHref_links_member:
  "m \<in> set (processHref_links parse sameDomainOnly al discovered link) \<Longrightarrow>
   m \<in> set discovered \<or> CHR ''#'' \<notin> set m"
  by (auto simp: processHref_links_def Let_def set_Set_add stripFragment_no_hash
           split: if_splits option.splits)

lemma requestHandler_links_member:
  "m \<in> set (requestHandler_links parse sameDomainOnly al discovered pageLinks) \<Longrightarrow>
   m \<in> set discovered \<or> CHR ''#'' \<notin> set m"
proof (induction pageLinks rule: rev_induct)
  case Nil
  then show ?case by (simp add: requestHandler_links_def)
next
  case (snoc link links)
  have "requestHandler_links parse sameDomainOnly al discovered (links @ [link]) =
        processHref_links parse sameDomainOnly al
          (requestHandler_links parse sameDomainOnly al discovered links) link"
    by (simp add: requestHandler_links_def)
  with snoc.prems processHref_links_member
  have "m \<in> set (requestHandler_links parse sameDomainOnly al discovered links) \<or>
        CHR ''#'' \<notin> set m"
    by metis
  with snoc.IH show ?case by blast
qed

text \<open>
  What the repository adds to the parser in normalising a link is \<open>split("#")[0]\<close>,
  which is idempotent. Whether \<open>new URL(s).href.split("#")[0]\<close> is idempotent is a
  property of the parser.
\<close>

lemma stripFragment_idem: "stripFragment (stripFragment s) = stripFragment s"
  by (simp add: stripFragment_def)

end
